theory Spec2Isabelle
  imports Complex_Main
begin

section \<open>The panorama controller: class MapPortSDK\<close>

text \<open>
  JavaScript numbers are modelled as \<^typ>\<open>real\<close>: the controller only adds, subtracts,
  multiplies by constants and takes \<open>max\<close>/\<open>min\<close>, and none of the properties below
  depends on rounding.

  A mesh is an opaque handle of the rendering engine; the controller never looks inside.
\<close>

type_synonym mesh = nat

text \<open>
  The engine objects the controller holds. Of the camera only the fields the controller
  reads or writes are kept (\<open>lookAt\<close> is the point last passed to \<open>camera.lookAt\<close>);
  of the renderer its size and the number of \<open>render\<close> calls it has received.
\<close>

record camera =
  fov :: real
  aspect :: real
  near :: real
  far :: real
  lookAt :: "(real \<times> real \<times> real) option"

record renderer =
  pixelRatio :: real
  width :: real
  height :: real
  rendered :: nat

text \<open>
  The fields of \<open>MapPortSDK\<close>. \<open>camera\<close>, \<open>scene\<close> and \<open>renderer\<close> are \<open>null\<close>
  (\<open>None\<close>) until \<open>init\<close> runs. A scene is given by the set of meshes it contains.
\<close>

record sdk =
  camera :: "camera option"
  scene :: "mesh set option"
  renderer :: "renderer option"
  isUserInteracting :: bool
  mouseDownMouseX :: real
  mouseDownMouseY :: real
  lon :: real
  targetLon :: real
  mouseDownLon :: real
  lat :: real
  targetLat :: real
  mouseDownLat :: real
  phi :: real
  theta :: real

record pointer_event =
  isPrimary :: bool
  clientX :: real
  clientY :: real

record wheel_event =
  deltaY :: real

text \<open>\<open>private readonly scale = 1\<close>\<close>

definition sdk_scale :: real where
  "sdk_scale = 1"

text \<open>The field initialisers of the class: the state of a freshly constructed object.\<close>

definition new_MapPortSDK :: sdk where
  "new_MapPortSDK =
     \<lparr>camera = None, scene = None, renderer = None, isUserInteracting = False,
      mouseDownMouseX = 0, mouseDownMouseY = 0, lon = 0, targetLon = 0, mouseDownLon = 0,
      lat = 0, targetLat = 0, mouseDownLat = 0, phi = 0, theta = 0\<rparr>"

text \<open>
  Modelled from the spec: the scene-graph container of the external rendering engine
  (its add/remove primitive, section 6), which is not part of this repository.
  \<open>add\<close> inserts a mesh into the scene; \<open>remove\<close> removes it if present and is a
  no-op otherwise (section 4.3).
\<close>

definition Scene_add :: "mesh \<Rightarrow> mesh set \<Rightarrow> mesh set" where
  "Scene_add m sc = insert m sc"

definition Scene_remove :: "mesh \<Rightarrow> mesh set \<Rightarrow> mesh set" where
  "Scene_remove m sc = sc - {m}"

text \<open>
  Modelled from the spec: the engine's \<open>MathUtils.clamp\<close> and \<open>MathUtils.degToRad\<close>
  (\<open>clamp(v, lo, hi)\<close> of section 4.1 and \<open>rad\<close> of section 3), which are not part of
  this repository.
\<close>

definition MathUtils_clamp :: "real \<Rightarrow> real \<Rightarrow> real \<Rightarrow> real" where
  "MathUtils_clamp v lo hi = max lo (min hi v)"

definition MathUtils_degToRad :: "real \<Rightarrow> real" where
  "MathUtils_degToRad d = d * (pi / 180)"

text \<open>\<open>this.scene?.add(mesh)\<close>: nothing happens while there is no scene.\<close>

definition addScene :: "mesh \<Rightarrow> sdk \<Rightarrow> sdk" where
  "addScene m s =
     (case scene s of
        None \<Rightarrow> s
      | Some sc \<Rightarrow> s\<lparr>scene := Some (Scene_add m sc)\<rparr>)"

text \<open>\<open>this.scene?.remove(mesh)\<close>\<close>

definition removeMesh :: "mesh \<Rightarrow> sdk \<Rightarrow> sdk" where
  "removeMesh m s =
     (case scene s of
        None \<Rightarrow> s
      | Some sc \<Rightarrow> s\<lparr>scene := Some (Scene_remove m sc)\<rparr>)"

text \<open>
  \<open>updateScene(mesh, mesh2)\<close>: two statements, \<open>this.scene?.remove(mesh)\<close> and then
  \<open>this.scene?.add(mesh2)\<close>, each guarded by \<open>?.\<close> on its own.
\<close>

definition updateScene :: "mesh \<Rightarrow> mesh \<Rightarrow> sdk \<Rightarrow> sdk" where
  "updateScene m m2 s =
     (let s1 = (case scene s of
                  None \<Rightarrow> s
                | Some sc \<Rightarrow> s\<lparr>scene := Some (Scene_remove m sc)\<rparr>);
          s2 = (case scene s1 of
                  None \<Rightarrow> s1
                | Some sc \<Rightarrow> s1\<lparr>scene := Some (Scene_add m2 sc)\<rparr>)
      in s2)"

text \<open>Whether the scene of the controller currently contains a mesh (no scene, no mesh).\<close>

definition scene_contains :: "sdk \<Rightarrow> mesh \<Rightarrow> bool" where
  "scene_contains s m = (case scene s of None \<Rightarrow> False | Some sc \<Rightarrow> m \<in> sc)"

text \<open>
  \<open>init()\<close>, for a container of client size \<open>w \<times> h\<close> and a window of device pixel
  ratio \<open>dpr\<close>: creates the camera (field of view 75, near 1, far \<open>1100 * scale\<close>), an
  empty scene and the renderer, and registers \<open>animate\<close> and the pointer, wheel and
  resize handlers (the handlers are the functions below; from here on the engine and
  the browser decide when they run).
\<close>

definition init :: "real \<Rightarrow> real \<Rightarrow> real \<Rightarrow> sdk \<Rightarrow> sdk" where
  "init w h dpr s =
     s\<lparr>camera := Some \<lparr>fov = 75, aspect = w / h, near = 1, far = 1100 * sdk_scale,
                        lookAt = None\<rparr>,
       scene := Some {},
       renderer := Some \<lparr>pixelRatio = dpr, width = w, height = h, rendered = 0\<rparr>\<rparr>"

text \<open>\<open>onWindowResize\<close>, for the new client size \<open>w \<times> h\<close> of the container.\<close>

definition onWindowResize :: "real \<Rightarrow> real \<Rightarrow> sdk \<Rightarrow> sdk" where
  "onWindowResize w h s =
     (case camera s of
        None \<Rightarrow> s
      | Some c \<Rightarrow>
          s\<lparr>camera := Some (c\<lparr>aspect := w / h\<rparr>),
            renderer := (case renderer s of
                           None \<Rightarrow> None
                         | Some r \<Rightarrow> Some (r\<lparr>width := w, height := h\<rparr>))\<rparr>)"

text \<open>\<open>onMouseDown\<close>: a primary pointer starts a drag and records where it started.\<close>

definition onMouseDown :: "pointer_event \<Rightarrow> sdk \<Rightarrow> sdk" where
  "onMouseDown event s =
     (if isPrimary event = False then s
      else s\<lparr>isUserInteracting := True,
             mouseDownMouseX := clientX event,
             mouseDownMouseY := clientY event,
             mouseDownLon := lon s,
             mouseDownLat := lat s\<rparr>)"

text \<open>\<open>onMouseMove\<close>\<close>

definition onMouseMove :: "pointer_event \<Rightarrow> sdk \<Rightarrow> sdk" where
  "onMouseMove event s =
     (if isPrimary event = False \<or> \<not> isUserInteracting s then s
      else s\<lparr>targetLon := (mouseDownMouseX s - clientX event) * 0.2 + mouseDownLon s,
             targetLat := (clientY event - mouseDownMouseY s) * 0.2 + mouseDownLat s\<rparr>)"

text \<open>\<open>onMouseUp\<close>\<close>

definition onMouseUp :: "pointer_event \<Rightarrow> sdk \<Rightarrow> sdk" where
  "onMouseUp event s =
     (if isPrimary event = False then s
      else s\<lparr>isUserInteracting := False\<rparr>)"

text \<open>
  \<open>onDocumentMouseWheel\<close>. \<open>camera.updateProjectionMatrix()\<close> recomputes a matrix derived
  from the fields of the camera; it changes none of them.
\<close>

definition onDocumentMouseWheel :: "wheel_event \<Rightarrow> sdk \<Rightarrow> sdk" where
  "onDocumentMouseWheel event s =
     (case camera s of
        None \<Rightarrow> s
      | Some c \<Rightarrow>
          (let fov' = fov c + deltaY event * 0.05
           in s\<lparr>camera := Some (c\<lparr>fov := MathUtils_clamp fov' 10 75\<rparr>)\<rparr>))"

text \<open>
  \<open>animate\<close>, the per-frame callback: damping of \<open>lon\<close> and \<open>lat\<close>, the clamp of
  \<open>lat\<close>, \<open>phi\<close> and \<open>theta\<close>, the look-at point and the render call.
\<close>

definition animate :: "sdk \<Rightarrow> sdk" where
  "animate s =
     (case (camera s, scene s, renderer s) of
        (Some c, Some sc, Some r) \<Rightarrow>
          (let lon1 = lon s + (targetLon s - lon s) * 0.1;
               lat1 = lat s + (targetLat s - lat s) * 0.1;
               lat2 = max (- 85) (min 85 lat1);
               phi1 = MathUtils_degToRad (90 - lat2);
               theta1 = MathUtils_degToRad lon1;
               x = 500 * sin phi1 * cos theta1 * sdk_scale;
               y = 500 * cos phi1 * sdk_scale;
               z = 500 * sin phi1 * sin theta1 * sdk_scale
           in s\<lparr>lon := lon1, lat := lat2, phi := phi1, theta := theta1,
                 camera := Some (c\<lparr>lookAt := Some (x, y, z)\<rparr>),
                 renderer := Some (r\<lparr>rendered := Suc (rendered r)\<rparr>)\<rparr>)
      | _ \<Rightarrow> s)"

text \<open>The guard of \<open>animate\<close>: camera, scene and renderer all exist (true after \<open>init\<close>).\<close>

definition initialised :: "sdk \<Rightarrow> bool" where
  "initialised s = (camera s \<noteq> None \<and> scene s \<noteq> None \<and> renderer s \<noteq> None)"

text \<open>
  What can happen to a controller after \<open>init\<close>: the events whose listeners \<open>init\<close>
  registers, the frame callback it hands to the renderer, and the public scene
  operations. \<open>run\<close> applies a sequence of them.
\<close>

datatype sdk_input =
    PointerDown pointer_event
  | PointerMove pointer_event
  | PointerUp pointer_event
  | Wheel wheel_event
  | Resize real real
  | Frame
  | AddScene mesh
  | UpdateScene mesh mesh
  | RemoveMesh mesh

fun dispatch :: "sdk \<Rightarrow> sdk_input \<Rightarrow> sdk" where
  "dispatch s (PointerDown e) = onMouseDown e s"
| "dispatch s (PointerMove e) = onMouseMove e s"
| "dispatch s (PointerUp e) = onMouseUp e s"
| "dispatch s (Wheel e) = onDocumentMouseWheel e s"
| "dispatch s (Resize w h) = onWindowResize w h s"
| "dispatch s Frame = animate s"
| "dispatch s (AddScene m) = addScene m s"
| "dispatch s (UpdateScene m m2) = updateScene m m2 s"
| "dispatch s (RemoveMesh m) = removeMesh m s"

definition run :: "sdk_input list \<Rightarrow> sdk \<Rightarrow> sdk" where
  "run inputs s = foldl dispatch s inputs"

section \<open>The pin overlay: class MapportExtension\<close>

text \<open>\<open>type Vector3 = { x: number; y: number; z: number }\<close>\<close>

type_synonym vector3 = "real \<times> real \<times> real"

text \<open>
  The properties of a \<open>Pinport.Pin\<close> that \<open>addPins\<close> reads. \<open>color\<close> and \<open>icon\<close> may
  be absent (\<open>None\<close>); the code tests both before use.
\<close>

record pin =
  pin_id :: string
  html :: string
  position :: vector3
  offset :: vector3
  opacity :: real
  enableLine :: bool
  color :: "string option"
  icon :: "string option"

text \<open>A thrown or rejected value: an \<open>Error\<close> with its message, or the runtime's \<open>TypeError\<close>.\<close>

datatype error = Error string | TypeError string

text \<open>The state of a promise.\<close>

datatype 'a promise = Pending | Fulfilled 'a | Rejected error

text \<open>What a call does at once: throw, or return a value.\<close>

datatype 'a completion = Throws error | Returns 'a

text \<open>The calls a promise executor makes on its \<open>resolve\<close> and \<open>reject\<close> arguments.\<close>

datatype 'a settle = Resolve 'a | Reject error

text \<open>
  \<open>new Promise(executor)\<close>, for an executor that makes the given calls and returns:
  the first call settles the promise, later ones have no effect, and with no call the
  promise stays pending.
\<close>

definition new_Promise :: "'a settle list \<Rightarrow> 'a promise" where
  "new_Promise settles =
     (case settles of
        [] \<Rightarrow> Pending
      | Resolve v # _ \<Rightarrow> Fulfilled v
      | Reject e # _ \<Rightarrow> Rejected e)"

text \<open>
  \<open>Promise.all\<close> over promises that all settle: fulfilled with the list of values when
  every one is fulfilled, rejected when one is rejected. Which rejection it carries
  when several reject depends on the order in which the platform answers; the model
  takes the first in list order, and no theorem below depends on that choice.
\<close>

fun Promise_all :: "(error + 'a) list \<Rightarrow> error + 'a list" where
  "Promise_all [] = Inr []"
| "Promise_all (Inl e # rs) = Inl e"
| "Promise_all (Inr v # rs) =
     (case Promise_all rs of Inl e \<Rightarrow> Inl e | Inr vs \<Rightarrow> Inr (v # vs))"

text \<open>The object passed to \<open>mapport.Tag.add\<close>.\<close>

record tag_descriptor =
  tag_id :: string
  anchorPosition :: vector3
  stemVector :: vector3
  attachments :: "string option list"
  tag_opacity :: real
  stemVisible :: bool
  tag_color :: string
  iconId :: "string option"

text \<open>
  The external collaborators. The content store is reached through the \<open>getPins\<close>
  function given to the constructor (the other four constructor arguments are never
  called); the host platform is the \<open>mapport\<close> argument of \<open>addPins\<close>. Both are
  parameters of the model: a request is answered by \<open>Inl\<close> (the promise rejects, or the
  call throws) or \<open>Inr\<close> (it fulfils). \<open>registerSandbox\<close> fulfils with an array, of
  which the code takes element 0.
\<close>

record extension =
  getPins :: "string \<Rightarrow> error + pin list"

record platform =
  Tag_registerSandbox :: "string \<Rightarrow> error + string list"
  Tag_add :: "tag_descriptor \<Rightarrow> error + unit"

text \<open>The requests \<open>addPins\<close> issues to its collaborators, logged in the order of issue.\<close>

datatype call = GetPins string | RegisterSandbox string | TagAdd tag_descriptor

text \<open>
  Arrays are objects: \<open>pins.push\<close> changes the array the caller passed. The store maps
  an array reference to the current contents of that array; \<open>next_ref\<close> is the next
  unused reference.
\<close>

record store =
  arrays :: "nat \<Rightarrow> pin list"
  next_ref :: nat

text \<open>The array literal \<open>[]\<close>: a new, empty array object.\<close>

definition new_array :: "store \<Rightarrow> nat \<times> store" where
  "new_array st =
     (next_ref st,
      st\<lparr>arrays := (arrays st)(next_ref st := []), next_ref := Suc (next_ref st)\<rparr>)"

text \<open>\<open>array.push(...items)\<close>\<close>

definition array_push :: "nat \<Rightarrow> pin list \<Rightarrow> store \<Rightarrow> store" where
  "array_push r items st = st\<lparr>arrays := (arrays st)(r := arrays st r @ items)\<rparr>"

text \<open>
  Truthiness, as the conditions of \<open>addPins\<close> use it: an array object is truthy also
  when it is empty; a string is falsy when it is \<open>undefined\<close> or empty; and
  \<open>model?.length\<close> is truthy for a defined string of non-zero length.
\<close>

definition truthy_array :: "nat \<Rightarrow> bool" where
  "truthy_array r = True"

definition truthy_string :: "string option \<Rightarrow> bool" where
  "truthy_string s = (case s of None \<Rightarrow> False | Some v \<Rightarrow> v \<noteq> [])"

definition truthy_length :: "string option \<Rightarrow> bool" where
  "truthy_length s = (case s of None \<Rightarrow> False | Some v \<Rightarrow> length v \<noteq> 0)"

text \<open>An element of \<open>pinsAttachments\<close>: \<open>{ attach, index }\<close>.\<close>

record attachment =
  attach :: "string option"
  index :: nat

text \<open>Element 0 of an array (\<open>undefined\<close> when the array is empty).\<close>

definition element0 :: "string list \<Rightarrow> string option" where
  "element0 hs = (case hs of [] \<Rightarrow> None | h # _ \<Rightarrow> Some h)"

text \<open>
  The callback of the first \<open>pins.map\<close>, for the pin at index \<open>i\<close>: its result and the
  request it issues. \<open>mapport!.Tag\<close> on a \<open>null\<close> platform throws before any request.
\<close>

definition attachPin :: "platform option \<Rightarrow> nat \<times> pin \<Rightarrow> (error + attachment) \<times> call list" where
  "attachPin mapport ip =
     (case ip of (i, p) \<Rightarrow>
        (case mapport of
           None \<Rightarrow> (Inl (TypeError ''Cannot read properties of null''), [])
         | Some pf \<Rightarrow>
             (case Tag_registerSandbox pf (html p) of
                Inl e \<Rightarrow> (Inl e, [RegisterSandbox (html p)])
              | Inr hs \<Rightarrow>
                  (Inr \<lparr>attach = element0 hs, index = i\<rparr>, [RegisterSandbox (html p)]))))"

text \<open>
  \<open>pins.map(async ({ html }, i) => ...)\<close>: the callback runs for every pin, in order,
  whatever the others do.
\<close>

definition attachAll :: "platform option \<Rightarrow> pin list \<Rightarrow> (error + attachment) list \<times> call list" where
  "attachAll mapport pins =
     (let rs = map (attachPin mapport) (enumerate 0 pins)
      in (map fst rs, concat (map snd rs)))"

text \<open>The object literal passed to \<open>Tag.add\<close> for a pin and its attachment.\<close>

definition tag_descriptor_of :: "pin \<Rightarrow> attachment \<Rightarrow> tag_descriptor" where
  "tag_descriptor_of p a =
     \<lparr>tag_id = pin_id p,
      anchorPosition = position p,
      stemVector = offset p,
      attachments = [attach a],
      tag_opacity = opacity p,
      stemVisible = enableLine p,
      tag_color = (if truthy_string (color p) then the (color p) else ''#000''),
      iconId = (if truthy_length (icon p) then icon p else None)\<rparr>"

text \<open>
  \<open>pinsAttachments.map(async (attachment) => ...)\<close>, with the set \<open>existingIds\<close>
  threaded through the callbacks: each callback runs up to its \<open>await\<close> before the
  next one starts, so the test and the insertion are never interleaved. The result is
  the outcome of every callback and the \<open>Tag.add\<close> requests issued, in order.
  \<open>pins[attachment.index]\<close> out of range is \<open>undefined\<close>, and reading its \<open>id\<close> throws.
\<close>

fun registerAll ::
  "platform option \<Rightarrow> pin list \<Rightarrow> string set \<Rightarrow> attachment list
     \<Rightarrow> (error + unit) list \<times> call list" where
  "registerAll mapport pins existingIds [] = ([], [])"
| "registerAll mapport pins existingIds (a # rest) =
     (if index a < length pins then
        (let p = pins ! index a;
             pinId = pin_id p
         in if pinId \<in> existingIds then
              (let (rs, cs) = registerAll mapport pins existingIds rest
               in (Inr () # rs, cs))
            else
              (let (rs, cs) = registerAll mapport pins (insert pinId existingIds) rest
               in (case mapport of
                     None \<Rightarrow> (Inl (TypeError ''Cannot read properties of null'') # rs, cs)
                   | Some pf \<Rightarrow>
                       (Tag_add pf (tag_descriptor_of p a) # rs,
                        TagAdd (tag_descriptor_of p a) # cs))))
      else
        (let (rs, cs) = registerAll mapport pins existingIds rest
         in (Inl (TypeError ''Cannot read properties of undefined'') # rs, cs)))"

text \<open>What a call of \<open>addPins\<close> leaves behind.\<close>

record addPins_result =
  outcome :: "unit promise"
  heap :: store
  pins_ref :: nat
  calls :: "call list"

text \<open>
  \<open>addPins(mapport, pins = [], model?)\<close>. \<open>pins_arg\<close> is the reference of the caller's
  array, or \<open>None\<close> when the argument is omitted; the default \<open>[]\<close> is then a new array.
  \<open>pins_ref\<close> of the result is the array bound to \<open>pins\<close>. The function is \<open>async\<close>:
  what it throws rejects the promise it returns.
\<close>

definition addPins ::
  "extension \<Rightarrow> platform option \<Rightarrow> nat option \<Rightarrow> string option \<Rightarrow> store \<Rightarrow> addPins_result" where
  "addPins this mapport pins_arg model st =
     (let (pins, st0) = (case pins_arg of None \<Rightarrow> new_array st | Some r \<Rightarrow> (r, st))
      in
      if \<not> truthy_array pins \<and> \<not> truthy_string model then
        \<lparr>outcome = Rejected (Error
           ''To add pins, provide either a pins array or a model in the setup configuration.''),
         heap = st0, pins_ref = pins, calls = []\<rparr>
      else
        (let (fetched, cs1) =
               (if truthy_length model
                then (getPins this (the model), [GetPins (the model)])
                else (Inr [], []))
         in case fetched of
              Inl e \<Rightarrow> \<lparr>outcome = Rejected e, heap = st0, pins_ref = pins, calls = cs1\<rparr>
            | Inr pinsToConcat \<Rightarrow>
                (let st1 = (if truthy_length model then array_push pins pinsToConcat st0 else st0);
                     (rs2, cs2) = attachAll mapport (arrays st1 pins)
                 in case Promise_all rs2 of
                      Inl e \<Rightarrow>
                        \<lparr>outcome = Rejected e, heap = st1, pins_ref = pins, calls = cs1 @ cs2\<rparr>
                    | Inr pinsAttachments \<Rightarrow>
                        (let (rs3, cs3) = registerAll mapport (arrays st1 pins) {} pinsAttachments
                         in case Promise_all rs3 of
                              Inl e \<Rightarrow>
                                \<lparr>outcome = Rejected e, heap = st1, pins_ref = pins,
                                 calls = cs1 @ cs2 @ cs3\<rparr>
                            | Inr _ \<Rightarrow>
                                \<lparr>outcome = Fulfilled (), heap = st1, pins_ref = pins,
                                 calls = cs1 @ cs2 @ cs3\<rparr>))))"

text \<open>
  In \<open>setupSdk\<close> the platform handle and both caches are constants:
  \<open>const mapport = null as any\<close>, \<open>const intersectionCache = null as any\<close>,
  \<open>const poseCache = null as any\<close>. The \<open>addPins\<close> of the object it returns passes
  that handle and the \<open>model\<close> given to \<open>setupSdk\<close>.
\<close>

definition setupSdk_mapport :: "platform option" where
  "setupSdk_mapport = None"

definition setupSdk_addPins ::
  "extension \<Rightarrow> string \<Rightarrow> nat option \<Rightarrow> store \<Rightarrow> addPins_result" where
  "setupSdk_addPins this model pins_arg st = addPins this setupSdk_mapport pins_arg (Some model) st"





text \<open>\<open>IntersectionResult & { time: number }\<close>\<close>

record intersection =
  int_position :: vector3
  time :: real

text \<open>
  The executor of the promise \<open>getPosition\<close> creates, as a function of the two caches
  its closure captures: \<open>reject\<close> is followed by \<open>resolve\<close>, there is no \<open>return\<close>
  between them.
\<close>

definition getPosition_executor ::
  "intersection option \<Rightarrow> 'pose option \<Rightarrow> intersection option settle list" where
  "getPosition_executor intersectionCache poseCache =
     (if intersectionCache = None \<or> poseCache = None
      then [Reject (Error ''Can't get current position.'')]
      else [])
     @ [Resolve intersectionCache]"

definition getPosition ::
  "intersection option \<Rightarrow> 'pose option \<Rightarrow> intersection option promise completion" where
  "getPosition intersectionCache poseCache =
     Returns (new_Promise (getPosition_executor intersectionCache poseCache))"

definition setupSdk_getPosition :: "intersection option promise completion" where
  "setupSdk_getPosition = getPosition None (None :: unit option)"

section \<open>Reading the request log\<close>

text \<open>The \<open>Tag.add\<close> requests of a log, in order.\<close>

definition tag_adds :: "call list \<Rightarrow> tag_descriptor list" where
  "tag_adds cs = concat (map (\<lambda>c. case c of TagAdd d \<Rightarrow> [d] | _ \<Rightarrow> []) cs)"

definition is_TagAdd :: "call \<Rightarrow> bool" where
  "is_TagAdd c = (case c of TagAdd d \<Rightarrow> True | _ \<Rightarrow> False)"

text \<open>Whether a logged request was answered by a failure.\<close>

definition call_fails :: "extension \<Rightarrow> platform \<Rightarrow> call \<Rightarrow> bool" where
  "call_fails this pf c =
     (case c of
        GetPins m \<Rightarrow> isl (getPins this m)
      | RegisterSandbox h \<Rightarrow> isl (Tag_registerSandbox pf h)
      | TagAdd d \<Rightarrow> isl (Tag_add pf d))"

section \<open>Concrete states and inputs\<close>

text \<open>A controller after \<open>init\<close> in a container of 800 by 600.\<close>

definition sdk0 :: sdk where
  "sdk0 = init 800 600 1 new_MapPortSDK"

text \<open>The same controller at \<open>lon = 10\<close>, \<open>lat = 20\<close>, after a primary pointer went down at (400, 300).\<close>

definition drag_start :: pointer_event where
  "drag_start = \<lparr>isPrimary = True, clientX = 400, clientY = 300\<rparr>"

definition sdk_dragging :: sdk where
  "sdk_dragging = onMouseDown drag_start (sdk0\<lparr>lon := 10, lat := 20\<rparr>)"

text \<open>
  Three pins, two of them with the id \<open>p1\<close>; a platform that accepts everything; one
  whose sandbox fails for the content of the third pin; one that refuses the overlay
  for \<open>p2\<close>; a store in which array 0 holds the three pins; and a content store that
  knows the model \<open>m1\<close>. \<open>tag1\<close> and \<open>tag2\<close> are the overlays of \<open>pin1\<close> and \<open>pin2\<close>.
\<close>

definition pin1 :: pin where
  "pin1 = \<lparr>pin_id = ''p1'', html = ''<b>one</b>'', position = (1, 2, 3), offset = (0, 1, 0),
           opacity = 1, enableLine = True, color = None, icon = Some ''''\<rparr>"

definition pin1' :: pin where
  "pin1' = \<lparr>pin_id = ''p1'', html = ''<b>other</b>'', position = (4, 5, 6), offset = (0, 1, 0),
           opacity = 0.5, enableLine = False, color = Some ''#f00'', icon = Some ''star''\<rparr>"

definition pin2 :: pin where
  "pin2 = \<lparr>pin_id = ''p2'', html = ''<i>two</i>'', position = (7, 8, 9), offset = (0, 1, 0),
           opacity = 1, enableLine = True, color = Some '''', icon = None\<rparr>"

definition platform_ok :: platform where
  "platform_ok = \<lparr>Tag_registerSandbox = (\<lambda>h. Inr [''sandbox:'' @ h, ''messenger'']),
                  Tag_add = (\<lambda>d. Inr ())\<rparr>"

definition platform_no_sandbox_two :: platform where
  "platform_no_sandbox_two =
     \<lparr>Tag_registerSandbox =
        (\<lambda>h. if h = ''<i>two</i>'' then Inl (Error ''sandbox failed'')
              else Inr [''sandbox:'' @ h, ''messenger'']),
      Tag_add = (\<lambda>d. Inr ())\<rparr>"

definition platform_refuses_p2 :: platform where
  "platform_refuses_p2 =
     \<lparr>Tag_registerSandbox = (\<lambda>h. Inr [''sandbox:'' @ h, ''messenger'']),
      Tag_add = (\<lambda>d. if tag_id d = ''p2'' then Inl (Error ''refused'') else Inr ())\<rparr>"

definition store1 :: store where
  "store1 = \<lparr>arrays = (\<lambda>r. [])(0 := [pin1, pin1', pin2]), next_ref = 1\<rparr>"

definition ext0 :: extension where
  "ext0 = \<lparr>getPins = (\<lambda>m. if m = ''m1'' then Inr [pin2, pin1] else Inl (Error ''no such model''))\<rparr>"

definition tag1 :: tag_descriptor where
  "tag1 = \<lparr>tag_id = ''p1'', anchorPosition = (1, 2, 3), stemVector = (0, 1, 0),
           attachments = [Some ''sandbox:<b>one</b>''], tag_opacity = 1, stemVisible = True,
           tag_color = ''#000'', iconId = None\<rparr>"

definition tag2 :: tag_descriptor where
  "tag2 = \<lparr>tag_id = ''p2'', anchorPosition = (7, 8, 9), stemVector = (0, 1, 0),
           attachments = [Some ''sandbox:<i>two</i>''], tag_opacity = 1, stemVisible = True,
           tag_color = ''#000'', iconId = None\<rparr>"

section \<open>Properties of the controller\<close>

lemmas sdk_examples = sdk0_def drag_start_def sdk_dragging_def init_def new_MapPortSDK_def

subsection \<open>States reached after \<open>init\<close>\<close>

text \<open>
  After \<open>init\<close>, whatever happens, camera, scene and renderer exist and the latitude
  stays within \<open>[-85, 85]\<close>.
\<close>

lemma initialised_dispatch: "initialised s \<Longrightarrow> initialised (dispatch s i)"
  by (cases i)
     (auto simp: initialised_def onMouseDown_def onMouseMove_def onMouseUp_def
        onDocumentMouseWheel_def onWindowResize_def animate_def addScene_def updateScene_def
        removeMesh_def Let_def split: option.splits)

lemma lat_dispatch:
  "- 85 \<le> lat s \<and> lat s \<le> 85 \<Longrightarrow> - 85 \<le> lat (dispatch s i) \<and> lat (dispatch s i) \<le> 85"
  by (cases i)
     (auto simp: onMouseDown_def onMouseMove_def onMouseUp_def
        onDocumentMouseWheel_def onWindowResize_def animate_def addScene_def updateScene_def
        removeMesh_def Let_def split: option.splits)

lemma run_invariant:
  "initialised s \<and> - 85 \<le> lat s \<and> lat s \<le> 85 \<Longrightarrow>
   initialised (run inputs s) \<and> - 85 \<le> lat (run inputs s) \<and> lat (run inputs s) \<le> 85"
  unfolding run_def
  by (induction inputs arbitrary: s) (simp_all add: initialised_dispatch lat_dispatch)

lemma reachable_invariant:
  "initialised (run inputs (init w h dpr new_MapPortSDK))
   \<and> - 85 \<le> lat (run inputs (init w h dpr new_MapPortSDK))
   \<and> lat (run inputs (init w h dpr new_MapPortSDK)) \<le> 85"
  by (rule run_invariant) (simp add: initialised_def init_def new_MapPortSDK_def)

subsection \<open>The frame step\<close>

lemma initialised_animate: "initialised s \<Longrightarrow> initialised (animate s)"
  by (auto simp: initialised_def animate_def Let_def split: option.splits)

lemma initialised_animate_funpow: "initialised s \<Longrightarrow> initialised ((animate ^^ n) s)"
  by (induction n) (simp_all add: initialised_animate)

lemma animate_step:
  assumes "initialised s"
  shows "- 85 \<le> lat (animate s) \<and> lat (animate s) \<le> 85
       \<and> phi (animate s) = MathUtils_degToRad (90 - lat (animate s))
       \<and> theta (animate s) = MathUtils_degToRad (lon (animate s))"
  using assms by (auto simp: initialised_def animate_def Let_def)

text \<open>
  C1. From any state in which camera, scene and renderer exist (every state reached
  after \<open>init\<close> is one), for any \<open>lat\<close>, \<open>lon\<close>, \<open>targetLat\<close> and \<open>targetLon\<close>
  whatever, after every tick of any sequence of
  \<open>n + 1\<close> frame ticks the latitude lies in \<open>[-85, 85]\<close>, \<open>phi\<close> is \<open>rad(90 - lat)\<close> and
  \<open>theta\<close> is \<open>rad(lon)\<close>, for the \<open>lat\<close> and \<open>lon\<close> of that same tick.
\<close>

theorem animate_lat_clamped:
  assumes "initialised s"
  shows "- 85 \<le> lat ((animate ^^ Suc n) s) \<and> lat ((animate ^^ Suc n) s) \<le> 85
       \<and> phi ((animate ^^ Suc n) s) = MathUtils_degToRad (90 - lat ((animate ^^ Suc n) s))
       \<and> theta ((animate ^^ Suc n) s) = MathUtils_degToRad (lon ((animate ^^ Suc n) s))"
proof -
  have "initialised ((animate ^^ n) s)"
    using assms by (rule initialised_animate_funpow)
  then show ?thesis
    using animate_step [of "(animate ^^ n) s"] by simp
qed

text \<open>
  With a target latitude of 1000 the first tick would reach 100 and is clamped to 85;
  with a target of -1000 the third tick is still at least -85.
\<close>

theorem animate_lat_clamped_witness:
  "initialised (sdk0\<lparr>targetLat := 1000\<rparr>)
   \<and> lat ((animate ^^ Suc 0) (sdk0\<lparr>targetLat := 1000\<rparr>)) = 85
   \<and> phi ((animate ^^ Suc 0) (sdk0\<lparr>targetLat := 1000\<rparr>)) = MathUtils_degToRad 5
   \<and> - 85 \<le> lat ((animate ^^ Suc 2) (sdk0\<lparr>targetLat := - 1000\<rparr>))"
proof -
  have i: "initialised (sdk0\<lparr>targetLat := 1000\<rparr>)" "initialised (sdk0\<lparr>targetLat := - 1000\<rparr>)"
    by (simp_all add: initialised_def sdk0_def init_def)
  have "lat ((animate ^^ Suc 0) (sdk0\<lparr>targetLat := 1000\<rparr>)) = 85"
    by (simp add: animate_def sdk0_def init_def new_MapPortSDK_def Let_def)
  with i animate_lat_clamped [OF i(1), of 0] animate_lat_clamped [OF i(2), of 2]
  show ?thesis by simp
qed

subsection \<open>Zoom\<close>

text \<open>
  C5. Whenever a camera exists (as in every state reached after \<open>init\<close>), in any
  interaction state, a wheel event sets the field
  of view to \<open>clamp(fov + deltaY * 0.05, 10, 75)\<close> (the sensitivity is the constant
  0.05) and leaves the interaction state alone. Hence the new field of view lies in
  \<open>[10, 75]\<close>; a larger delta never gives a smaller field of view; from a field of view
  within the bounds a non-negative delta never lowers it and a non-positive delta never
  raises it; and at a bound a push past it changes nothing.
\<close>

theorem onDocumentMouseWheel_zoom:
  assumes "camera s = Some c"
  shows "\<exists>c'. camera (onDocumentMouseWheel e s) = Some c'
      \<and> fov c' = MathUtils_clamp (fov c + deltaY e * 0.05) 10 75
      \<and> 10 \<le> fov c' \<and> fov c' \<le> 75
      \<and> (\<forall>e2 c2. deltaY e \<le> deltaY e2 \<and> camera (onDocumentMouseWheel e2 s) = Some c2
            \<longrightarrow> fov c' \<le> fov c2)
      \<and> (10 \<le> fov c \<and> fov c \<le> 75 \<and> 0 \<le> deltaY e \<longrightarrow> fov c \<le> fov c')
      \<and> (10 \<le> fov c \<and> fov c \<le> 75 \<and> deltaY e \<le> 0 \<longrightarrow> fov c' \<le> fov c)
      \<and> (fov c = 75 \<and> 0 \<le> deltaY e \<longrightarrow> fov c' = 75)
      \<and> (fov c = 10 \<and> deltaY e \<le> 0 \<longrightarrow> fov c' = 10)
      \<and> isUserInteracting (onDocumentMouseWheel e s) = isUserInteracting s"
  using assms
  by (auto simp: onDocumentMouseWheel_def MathUtils_clamp_def Let_def min_def max_def)

text \<open>
  The scenario of the specification: container 800 by 600, field of view 75, a wheel
  event with \<open>deltaY = 500\<close>; the camera is unchanged.
\<close>

theorem onDocumentMouseWheel_zoom_witness:
  "camera sdk0 = Some \<lparr>fov = 75, aspect = 800 / 600, near = 1, far = 1100, lookAt = None\<rparr>
   \<and> camera (onDocumentMouseWheel \<lparr>deltaY = 500\<rparr> sdk0)
       = Some \<lparr>fov = 75, aspect = 800 / 600, near = 1, far = 1100, lookAt = None\<rparr>"
proof -
  have c: "camera sdk0 = Some \<lparr>fov = 75, aspect = 800 / 600, near = 1, far = 1100, lookAt = None\<rparr>"
    by (simp add: sdk0_def init_def sdk_scale_def)
  from onDocumentMouseWheel_zoom [OF c, of "\<lparr>deltaY = 500\<rparr>"]
  obtain c' where "camera (onDocumentMouseWheel \<lparr>deltaY = 500\<rparr> sdk0) = Some c'" "fov c' = 75"
    by auto
  with c show ?thesis
    by (auto simp: onDocumentMouseWheel_def)
qed

subsection \<open>Dragging\<close>

text \<open>
  C4, as stated, fails: after a drag that started at (400, 300) with \<open>lon = 10\<close> and
  \<open>lat = 20\<close>, pointer-up sets the flag to false and the four recorded drag-start values
  are still there.
\<close>

theorem onMouseUp_keeps_drag_start:
  "isUserInteracting sdk_dragging
   \<and> \<not> isUserInteracting (onMouseUp \<lparr>isPrimary = True, clientX = 300, clientY = 300\<rparr> sdk_dragging)
   \<and> mouseDownMouseX (onMouseUp \<lparr>isPrimary = True, clientX = 300, clientY = 300\<rparr> sdk_dragging) = 400
   \<and> mouseDownMouseY (onMouseUp \<lparr>isPrimary = True, clientX = 300, clientY = 300\<rparr> sdk_dragging) = 300
   \<and> mouseDownLon (onMouseUp \<lparr>isPrimary = True, clientX = 300, clientY = 300\<rparr> sdk_dragging) = 10
   \<and> mouseDownLat (onMouseUp \<lparr>isPrimary = True, clientX = 300, clientY = 300\<rparr> sdk_dragging) = 20"
  by (simp add: sdk_examples onMouseUp_def onMouseDown_def)

text \<open>
  C4, amended. A primary pointer-up only sets the flag \<open>isUserInteracting\<close> to false:
  the recorded drag-start screen coordinates and drag-start \<open>lon\<close>/\<open>lat\<close> keep their
  values, and \<open>targetLon\<close> and \<open>targetLat\<close> are unchanged (no snap-back). The retained
  values are not read afterwards: a pointer-move is ignored while the flag is false,
  and the next primary pointer-down overwrites all four.
\<close>

theorem onMouseUp_flag_only:
  assumes "isPrimary e"
  shows "\<not> isUserInteracting (onMouseUp e s)
       \<and> mouseDownMouseX (onMouseUp e s) = mouseDownMouseX s
       \<and> mouseDownMouseY (onMouseUp e s) = mouseDownMouseY s
       \<and> mouseDownLon (onMouseUp e s) = mouseDownLon s
       \<and> mouseDownLat (onMouseUp e s) = mouseDownLat s
       \<and> targetLon (onMouseUp e s) = targetLon s
       \<and> targetLat (onMouseUp e s) = targetLat s
       \<and> onMouseMove m (onMouseUp e s) = onMouseUp e s
       \<and> (isPrimary d \<longrightarrow>
            mouseDownMouseX (onMouseDown d (onMouseUp e s)) = clientX d
          \<and> mouseDownMouseY (onMouseDown d (onMouseUp e s)) = clientY d
          \<and> mouseDownLon (onMouseDown d (onMouseUp e s)) = lon s
          \<and> mouseDownLat (onMouseDown d (onMouseUp e s)) = lat s)"
  using assms by (simp add: onMouseUp_def onMouseMove_def onMouseDown_def)

theorem onMouseUp_flag_only_witness:
  "isPrimary drag_start
   \<and> \<not> isUserInteracting (onMouseUp drag_start sdk_dragging)
   \<and> mouseDownMouseX (onMouseUp drag_start sdk_dragging) = 400
   \<and> mouseDownLat (onMouseUp drag_start sdk_dragging) = 20
   \<and> targetLon (onMouseUp drag_start sdk_dragging) = 0
   \<and> onMouseMove \<lparr>isPrimary = True, clientX = 0, clientY = 0\<rparr>
         (onMouseUp drag_start sdk_dragging) = onMouseUp drag_start sdk_dragging
   \<and> mouseDownMouseX (onMouseDown \<lparr>isPrimary = True, clientX = 50, clientY = 60\<rparr>
        (onMouseUp drag_start sdk_dragging)) = 50"
proof -
  have p: "isPrimary drag_start" by (simp add: drag_start_def)
  have d: "isPrimary \<lparr>isPrimary = True, clientX = 50, clientY = 60\<rparr>" by simp
  from onMouseUp_flag_only [OF p, of sdk_dragging
      "\<lparr>isPrimary = True, clientX = 0, clientY = 0\<rparr>"
      "\<lparr>isPrimary = True, clientX = 50, clientY = 60\<rparr>"] p d
  show ?thesis
    by (simp add: sdk_examples onMouseDown_def)
qed

text \<open>
  C6. For every pointer-move of the primary pointer while dragging, the new targets are
  \<open>targetLon = (dragStartX - currentX) * 0.2 + dragStartLon\<close> and
  \<open>targetLat = (currentY - dragStartY) * 0.2 + dragStartLat\<close>, with no clamping.
  Pointer events that are not primary are ignored in every state (section 4.2 of the
  specification): such a move changes nothing.
\<close>

theorem onMouseMove_targets:
  "(isUserInteracting s \<and> isPrimary e \<longrightarrow>
      targetLon (onMouseMove e s) = (mouseDownMouseX s - clientX e) * 0.2 + mouseDownLon s
    \<and> targetLat (onMouseMove e s) = (clientY e - mouseDownMouseY s) * 0.2 + mouseDownLat s)
   \<and> (\<not> isPrimary e \<longrightarrow> onMouseMove e s = s)"
  by (simp add: onMouseMove_def)

text \<open>
  The scenario of the specification, a drag from (400, 300) to (300, 300): the target
  longitude is 20 plus the drag-start longitude 10. A drag down to \<open>y = 1300\<close> sets
  the target latitude to 220, outside \<open>[-85, 85]\<close>.
\<close>

theorem onMouseMove_targets_witness:
  "isUserInteracting sdk_dragging
   \<and> isPrimary \<lparr>isPrimary = True, clientX = 300, clientY = 300\<rparr>
   \<and> targetLon (onMouseMove \<lparr>isPrimary = True, clientX = 300, clientY = 300\<rparr> sdk_dragging)
       = 20 + mouseDownLon sdk_dragging
   \<and> mouseDownLon sdk_dragging = 10
   \<and> targetLat (onMouseMove \<lparr>isPrimary = True, clientX = 300, clientY = 1300\<rparr> sdk_dragging) = 220
   \<and> onMouseMove \<lparr>isPrimary = False, clientX = 300, clientY = 300\<rparr> sdk_dragging = sdk_dragging"
  using onMouseMove_targets [of sdk_dragging "\<lparr>isPrimary = True, clientX = 300, clientY = 300\<rparr>"]
        onMouseMove_targets [of sdk_dragging "\<lparr>isPrimary = True, clientX = 300, clientY = 1300\<rparr>"]
        onMouseMove_targets [of sdk_dragging "\<lparr>isPrimary = False, clientX = 300, clientY = 300\<rparr>"]
  by (simp add: sdk_examples onMouseDown_def)

subsection \<open>Replacing a mesh\<close>

text \<open>
  C9. For a controller with a scene and two different meshes \<open>A\<close> and \<open>B\<close>, after
  \<open>updateScene(A, B)\<close> the scene contains \<open>B\<close> and not \<open>A\<close>, whatever it contained
  before, and every other mesh is in the scene exactly if it was before. The call is
  the removal of \<open>A\<close> followed by the addition of \<open>B\<close>: in the state between the two
  the scene does not contain \<open>A\<close>, nor \<open>B\<close> unless \<open>B\<close> was there before. Without a
  scene the call is the silent no-op of section 4.3.
\<close>

theorem updateScene_replaces:
  "(scene s \<noteq> None \<and> A \<noteq> B \<longrightarrow>
      scene_contains (updateScene A B s) B
    \<and> \<not> scene_contains (updateScene A B s) A
    \<and> (\<forall>m. m \<noteq> A \<and> m \<noteq> B \<longrightarrow> scene_contains (updateScene A B s) m = scene_contains s m))
   \<and> (scene s = None \<longrightarrow> updateScene A B s = s)
   \<and> updateScene A B s = addScene B (removeMesh A s)
   \<and> \<not> scene_contains (removeMesh A s) A
   \<and> (\<not> scene_contains s B \<and> A \<noteq> B \<longrightarrow> \<not> scene_contains (removeMesh A s) B)"
  by (auto simp: updateScene_def scene_contains_def Scene_add_def Scene_remove_def
        addScene_def removeMesh_def Let_def split: option.splits)

theorem updateScene_replaces_witness:
  "scene (addScene 1 (addScene 3 sdk0)) \<noteq> None \<and> (1::nat) \<noteq> 2
   \<and> scene_contains (addScene 1 (addScene 3 sdk0)) 1
   \<and> scene_contains (updateScene 1 2 (addScene 1 (addScene 3 sdk0))) 2
   \<and> \<not> scene_contains (updateScene 1 2 (addScene 1 (addScene 3 sdk0))) 1
   \<and> scene_contains (updateScene 1 2 (addScene 1 (addScene 3 sdk0))) 3
   \<and> \<not> scene_contains (removeMesh 1 (addScene 1 (addScene 3 sdk0))) 2
   \<and> scene new_MapPortSDK = None
   \<and> updateScene 1 2 new_MapPortSDK = new_MapPortSDK"
proof -
  have a: "scene (addScene 1 (addScene 3 sdk0)) \<noteq> None"
    by (simp add: sdk_examples addScene_def)
  have b: "scene_contains (addScene 1 (addScene 3 sdk0)) 1"
          "scene_contains (addScene 1 (addScene 3 sdk0)) 3"
          "\<not> scene_contains (addScene 1 (addScene 3 sdk0)) 2"
    by (simp_all add: sdk_examples addScene_def scene_contains_def Scene_add_def)
  have c: "scene new_MapPortSDK = None"
    by (simp add: new_MapPortSDK_def)
  have d: "(1::nat) \<noteq> 2" "(3::nat) \<noteq> 1" "(3::nat) \<noteq> 2"
    by simp_all
  from updateScene_replaces [of "addScene 1 (addScene 3 sdk0)" 1 2]
       updateScene_replaces [of new_MapPortSDK 1 2] a b c d
  show ?thesis by blast
qed

section \<open>Properties of the pin overlay\<close>

subsection \<open>The request log and \<open>Promise.all\<close>\<close>

lemma tag_adds_simps:
  "tag_adds [] = []"
  "tag_adds (TagAdd d # cs) = d # tag_adds cs"
  "tag_adds (GetPins m # cs) = tag_adds cs"
  "tag_adds (RegisterSandbox h # cs) = tag_adds cs"
  "tag_adds (cs @ cs') = tag_adds cs @ tag_adds cs'"
  by (simp_all add: tag_adds_def)

lemma Promise_all_cases:
  "(\<exists>e. Promise_all rs = Inl e \<and> Inl e \<in> set rs)
   \<or> (\<exists>vs. Promise_all rs = Inr vs \<and> rs = map Inr vs)"
  by (induction rs rule: Promise_all.induct) (auto split: sum.splits)

lemma Promise_all_Inr_iff: "Promise_all rs = Inr vs \<longleftrightarrow> rs = map Inr vs"
  using Promise_all_cases [of rs] by (auto simp: inj_map_eq_map)

lemma Promise_all_isl: "isl (Promise_all rs) \<longleftrightarrow> (\<exists>r\<in>set rs. isl r)"
  by (induction rs rule: Promise_all.induct) (auto split: sum.splits)

subsection \<open>The attachment stage\<close>

lemma attachAll_calls:
  "snd (attachAll (Some pf) pins) = map (\<lambda>p. RegisterSandbox (html p)) pins"
proof -
  have "concat (map snd (map (attachPin (Some pf)) (enumerate n pins)))
          = map (\<lambda>p. RegisterSandbox (html p)) pins" for n
    by (induction pins arbitrary: n) (auto simp: attachPin_def split: sum.splits)
  then show ?thesis by (simp add: attachAll_def Let_def)
qed

lemma attachAll_length: "length (fst (attachAll mapport pins)) = length pins"
  by (simp add: attachAll_def Let_def)

lemma attachAll_nth:
  assumes "k < length pins"
  shows "fst (attachAll (Some pf) pins) ! k =
           (case Tag_registerSandbox pf (html (pins ! k)) of
              Inl e \<Rightarrow> Inl e
            | Inr hs \<Rightarrow> Inr \<lparr>attach = element0 hs, index = k\<rparr>)"
  using assms
  by (simp add: attachAll_def Let_def nth_enumerate_eq attachPin_def split: sum.splits)

lemma attachAll_Inr:
  assumes "Promise_all (fst (attachAll (Some pf) pins)) = Inr atts"
  shows "length atts = length pins"
    and "\<And>k. k < length pins \<Longrightarrow>
           \<exists>hs. Tag_registerSandbox pf (html (pins ! k)) = Inr hs
              \<and> atts ! k = \<lparr>attach = element0 hs, index = k\<rparr>"
proof -
  from assms have eq: "fst (attachAll (Some pf) pins) = map Inr atts"
    by (simp add: Promise_all_Inr_iff)
  then show len: "length atts = length pins"
    using attachAll_length [of "Some pf" pins] by simp
  fix k assume k: "k < length pins"
  with eq len have "fst (attachAll (Some pf) pins) ! k = Inr (atts ! k)" by simp
  with attachAll_nth [OF k, of pf]
  show "\<exists>hs. Tag_registerSandbox pf (html (pins ! k)) = Inr hs
              \<and> atts ! k = \<lparr>attach = element0 hs, index = k\<rparr>"
    by (auto split: sum.splits)
qed

lemma attachAll_indices:
  assumes "Promise_all (fst (attachAll (Some pf) pins)) = Inr atts"
  shows "\<forall>a\<in>set atts. index a < length pins"
proof
  fix a assume "a \<in> set atts"
  then obtain k where k: "k < length atts" "atts ! k = a"
    by (auto simp: in_set_conv_nth)
  with attachAll_Inr [OF assms] show "index a < length pins"
    by fastforce
qed

lemma attachAll_no_failure:
  assumes "Promise_all (fst (attachAll (Some pf) pins)) = Inr atts"
      and "c \<in> set (snd (attachAll (Some pf) pins))"
  shows "\<not> call_fails this pf c \<and> \<not> is_TagAdd c"
proof -
  from assms(2) obtain k where k: "k < length pins" "c = RegisterSandbox (html (pins ! k))"
    by (auto simp: attachAll_calls in_set_conv_nth)
  with attachAll_Inr(2) [OF assms(1), of k] show ?thesis
    by (auto simp: call_fails_def is_TagAdd_def)
qed

lemma attachAll_failure:
  assumes "Promise_all (fst (attachAll (Some pf) pins)) = Inl e"
  shows "\<exists>c\<in>set (snd (attachAll (Some pf) pins)). call_fails this pf c \<and> \<not> is_TagAdd c"
proof -
  from assms have "isl (Promise_all (fst (attachAll (Some pf) pins)))" by simp
  then obtain r where "r \<in> set (fst (attachAll (Some pf) pins))" "isl r"
    by (auto simp: Promise_all_isl)
  then obtain k where k: "k < length pins" "isl (fst (attachAll (Some pf) pins) ! k)"
    by (auto simp: in_set_conv_nth attachAll_length)
  then have "isl (Tag_registerSandbox pf (html (pins ! k)))"
    by (auto simp: attachAll_nth split: sum.splits)
  with k(1) show ?thesis
    by (auto simp: attachAll_calls call_fails_def is_TagAdd_def intro!: bexI [of _ "RegisterSandbox (html (pins ! k))"])
qed

subsection \<open>The registration stage\<close>

lemma tag_id_descriptor [simp]: "tag_id (tag_descriptor_of p a) = pin_id p"
  by (simp add: tag_descriptor_of_def)

lemma registerAll_filter:
  assumes "\<forall>a\<in>set atts. index a < length pins"
  shows "filter (\<lambda>d. tag_id d = i) (tag_adds (snd (registerAll (Some pf) pins seen atts))) =
           (if i \<in> seen then []
            else case find (\<lambda>a. pin_id (pins ! index a) = i) atts of
                   None \<Rightarrow> []
                 | Some a \<Rightarrow> [tag_descriptor_of (pins ! index a) a])"
  using assms
proof (induction atts arbitrary: seen)
  case Nil
  then show ?case by (simp add: tag_adds_simps)
next
  case (Cons a atts)
  then have ih: "filter (\<lambda>d. tag_id d = i) (tag_adds (snd (registerAll (Some pf) pins sn atts))) =
           (if i \<in> sn then []
            else case find (\<lambda>a. pin_id (pins ! index a) = i) atts of
                   None \<Rightarrow> []
                 | Some a \<Rightarrow> [tag_descriptor_of (pins ! index a) a])" for sn
    by simp
  from Cons.prems have a: "index a < length pins" by simp
  show ?case
  proof (cases "pin_id (pins ! index a) \<in> seen")
    case True
    with a ih [of seen] show ?thesis
      by (auto simp: Let_def case_prod_beta)
  next
    case False
    with a ih [of "insert (pin_id (pins ! index a)) seen"] show ?thesis
      by (auto simp: Let_def case_prod_beta tag_adds_simps)
  qed
qed

lemma registerAll_failures:
  assumes "\<forall>a\<in>set atts. index a < length pins"
  shows "(\<exists>r\<in>set (fst (registerAll (Some pf) pins seen atts)). isl r) \<longleftrightarrow>
         (\<exists>d\<in>set (tag_adds (snd (registerAll (Some pf) pins seen atts))). isl (Tag_add pf d))"
  using assms
proof (induction atts arbitrary: seen)
  case Nil
  then show ?case by (simp add: tag_adds_simps)
next
  case (Cons a atts)
  then have ih: "(\<exists>r\<in>set (fst (registerAll (Some pf) pins sn atts)). isl r) \<longleftrightarrow>
         (\<exists>d\<in>set (tag_adds (snd (registerAll (Some pf) pins sn atts))). isl (Tag_add pf d))" for sn
    by simp
  from Cons.prems have a: "index a < length pins" by simp
  show ?case
  proof (cases "pin_id (pins ! index a) \<in> seen")
    case True
    with a ih [of seen] show ?thesis
      by (simp add: Let_def case_prod_beta)
  next
    case False
    with a ih [of "insert (pin_id (pins ! index a)) seen"] show ?thesis
      by (simp add: Let_def case_prod_beta tag_adds_simps)
  qed
qed

lemma registerAll_calls_TagAdd:
  "c \<in> set (snd (registerAll mapport pins seen atts)) \<Longrightarrow> is_TagAdd c"
  by (induction atts arbitrary: seen)
     (auto simp: Let_def is_TagAdd_def case_prod_beta split: if_splits option.splits)

lemma tag_adds_member: "d \<in> set (tag_adds cs) \<longleftrightarrow> TagAdd d \<in> set cs"
  by (induction cs) (auto simp: tag_adds_def split: call.splits)

lemma registerAll_failure_call:
  assumes "\<forall>a\<in>set atts. index a < length pins"
  shows "isl (Promise_all (fst (registerAll (Some pf) pins seen atts))) \<longleftrightarrow>
         (\<exists>c\<in>set (snd (registerAll (Some pf) pins seen atts)). call_fails this pf c)"
proof -
  have "(\<exists>c\<in>set (snd (registerAll (Some pf) pins seen atts)). call_fails this pf c) \<longleftrightarrow>
        (\<exists>d\<in>set (tag_adds (snd (registerAll (Some pf) pins seen atts))). isl (Tag_add pf d))"
  proof
    assume "\<exists>c\<in>set (snd (registerAll (Some pf) pins seen atts)). call_fails this pf c"
    then obtain c where c: "c \<in> set (snd (registerAll (Some pf) pins seen atts))" "call_fails this pf c"
      by blast
    from registerAll_calls_TagAdd [OF c(1)] obtain d where "c = TagAdd d"
      by (auto simp: is_TagAdd_def split: call.splits)
    with c show "\<exists>d\<in>set (tag_adds (snd (registerAll (Some pf) pins seen atts))). isl (Tag_add pf d)"
      by (auto simp: tag_adds_member call_fails_def)
  next
    assume "\<exists>d\<in>set (tag_adds (snd (registerAll (Some pf) pins seen atts))). isl (Tag_add pf d)"
    then show "\<exists>c\<in>set (snd (registerAll (Some pf) pins seen atts)). call_fails this pf c"
      by (auto simp: tag_adds_member call_fails_def intro!: bexI)
  qed
  with registerAll_failures [OF assms, of pf seen] show ?thesis
    by (simp add: Promise_all_isl)
qed

lemma find_attachment:
  assumes A: "Promise_all (fst (attachAll (Some pf) W)) = Inr atts"
      and first: "find (\<lambda>p. pin_id p = i) W = Some p"
  shows "\<exists>a hs. find (\<lambda>a. pin_id (W ! index a) = i) atts = Some a
            \<and> W ! index a = p
            \<and> Tag_registerSandbox pf (html p) = Inr hs
            \<and> attach a = element0 hs"
proof -
  from first obtain k where k: "k < length W" "pin_id (W ! k) = i" "p = W ! k"
      "\<forall>j<k. pin_id (W ! j) \<noteq> i"
    by (auto simp: find_Some_iff)
  note len = attachAll_Inr(1) [OF A]
  have idx: "index (atts ! j) = j" if "j < length W" for j
    using attachAll_Inr(2) [OF A that] by auto
  from attachAll_Inr(2) [OF A k(1)] obtain hs where
    hs: "Tag_registerSandbox pf (html (W ! k)) = Inr hs" "atts ! k = \<lparr>attach = element0 hs, index = k\<rparr>"
    by blast
  have "find (\<lambda>a. pin_id (W ! index a) = i) atts = Some (atts ! k)"
    unfolding find_Some_iff
  proof (intro exI [of _ k] conjI allI impI)
    show "k < length atts" using k(1) len by simp
    show "pin_id (W ! index (atts ! k)) = i" using k(1,2) idx by simp
    show "atts ! k = atts ! k" ..
    fix j assume "j < k"
    with k(1,4) idx [of j] show "pin_id (W ! index (atts ! j)) \<noteq> i" by simp
  qed
  with hs k show ?thesis by simp
qed

subsection \<open>The stages of \<open>addPins\<close>\<close>

lemma addPins_fetch_failed:
  assumes "(case pa of None \<Rightarrow> new_array st | Some r \<Rightarrow> (r, st)) = (pins, st0)"
      and "truthy_length model" and "getPins this (the model) = Inl e"
  shows "addPins this mapport pa model st =
           \<lparr>outcome = Rejected e, heap = st0, pins_ref = pins, calls = [GetPins (the model)]\<rparr>"
  using assms by (simp add: addPins_def truthy_array_def)

lemma addPins_after_fetch:
  assumes "(case pa of None \<Rightarrow> new_array st | Some r \<Rightarrow> (r, st)) = (pins, st0)"
      and "(if truthy_length model then (getPins this (the model), [GetPins (the model)])
            else (Inr [], [])) = (Inr fetched, cs1)"
      and "st1 = (if truthy_length model then array_push pins fetched st0 else st0)"
  shows "addPins this mapport pa model st =
           (case Promise_all (fst (attachAll mapport (arrays st1 pins))) of
              Inl e \<Rightarrow>
                \<lparr>outcome = Rejected e, heap = st1, pins_ref = pins,
                 calls = cs1 @ snd (attachAll mapport (arrays st1 pins))\<rparr>
            | Inr atts \<Rightarrow>
                (case Promise_all (fst (registerAll mapport (arrays st1 pins) {} atts)) of
                   Inl e \<Rightarrow>
                     \<lparr>outcome = Rejected e, heap = st1, pins_ref = pins,
                      calls = cs1 @ snd (attachAll mapport (arrays st1 pins))
                                @ snd (registerAll mapport (arrays st1 pins) {} atts)\<rparr>
                 | Inr u \<Rightarrow>
                     \<lparr>outcome = Fulfilled (), heap = st1, pins_ref = pins,
                      calls = cs1 @ snd (attachAll mapport (arrays st1 pins))
                                @ snd (registerAll mapport (arrays st1 pins) {} atts)\<rparr>))"
  using assms(1,2) unfolding assms(3)
  by (simp add: addPins_def truthy_array_def case_prod_beta Let_def split: sum.splits)

lemma addPins_outcome:
  "(outcome (addPins this (Some pf) pa model st) = Fulfilled ()
      \<and> (\<forall>c\<in>set (calls (addPins this (Some pf) pa model st)). \<not> call_fails this pf c))
   \<or> ((\<exists>e. outcome (addPins this (Some pf) pa model st) = Rejected e)
      \<and> (\<exists>c\<in>set (calls (addPins this (Some pf) pa model st)). call_fails this pf c))"
proof -
  obtain pins st0 where p: "(case pa of None \<Rightarrow> new_array st | Some r \<Rightarrow> (r, st)) = (pins, st0)"
    by (cases "case pa of None \<Rightarrow> new_array st | Some r \<Rightarrow> (r, st)") simp
  show ?thesis
  proof (cases "truthy_length model \<and> isl (getPins this (the model))")
    case True
    then obtain e where "getPins this (the model) = Inl e"
      by (auto simp: isl_def)
    with True addPins_fetch_failed [OF p, of model this e "Some pf"] show ?thesis
      by (simp add: call_fails_def)
  next
    case False
    then have "\<exists>fetched cs1.
        (if truthy_length model then (getPins this (the model), [GetPins (the model)])
         else (Inr [], [])) = (Inr fetched, cs1)"
      by (cases "getPins this (the model)") simp_all
    then obtain fetched cs1 where
      f: "(if truthy_length model then (getPins this (the model), [GetPins (the model)])
           else (Inr [], [])) = (Inr fetched, cs1)"
      by blast
    with False have cs1: "\<forall>c\<in>set cs1. \<not> call_fails this pf c"
      by (auto simp: call_fails_def split: if_splits)
    define st1 where "st1 = (if truthy_length model then array_push pins fetched st0 else st0)"
    define W where "W = arrays st1 pins"
    note eq = addPins_after_fetch [OF p f st1_def, of "Some pf", folded W_def]
    show ?thesis
    proof (cases "Promise_all (fst (attachAll (Some pf) W))")
      case (Inl e)
      with eq attachAll_failure [OF Inl, of this] show ?thesis
        by auto
    next
      case (Inr atts)
      note ind = attachAll_indices [OF Inr]
      note cs2 = attachAll_no_failure [OF Inr, of _ this]
      show ?thesis
      proof (cases "Promise_all (fst (registerAll (Some pf) W {} atts))")
        case (Inl e)
        then have "isl (Promise_all (fst (registerAll (Some pf) W {} atts)))" by simp
        with registerAll_failure_call [OF ind, of pf "{}" this]
        have "\<exists>c\<in>set (snd (registerAll (Some pf) W {} atts)). call_fails this pf c" by simp
        with eq Inr Inl show ?thesis
          by auto
      next
        case (Inr u)
        then have "\<not> isl (Promise_all (fst (registerAll (Some pf) W {} atts)))" by simp
        with registerAll_failure_call [OF ind, of pf "{}" this]
        have "\<forall>c\<in>set (snd (registerAll (Some pf) W {} atts)). \<not> call_fails this pf c" by simp
        with eq \<open>Promise_all (fst (attachAll (Some pf) W)) = Inr atts\<close> Inr cs1 cs2 show ?thesis
          by auto
      qed
    qed
  qed
qed

lemma addPins_stages:
  "(tag_adds (calls (addPins this (Some pf) pa model st)) = []
      \<and> (\<exists>c\<in>set (calls (addPins this (Some pf) pa model st)).
            \<not> is_TagAdd c \<and> call_fails this pf c))
   \<or> ((\<forall>c\<in>set (calls (addPins this (Some pf) pa model st)).
            \<not> is_TagAdd c \<longrightarrow> \<not> call_fails this pf c)
      \<and> (\<exists>atts.
           Promise_all (fst (attachAll (Some pf)
               (arrays (heap (addPins this (Some pf) pa model st))
                       (pins_ref (addPins this (Some pf) pa model st))))) = Inr atts
         \<and> tag_adds (calls (addPins this (Some pf) pa model st)) =
             tag_adds (snd (registerAll (Some pf)
               (arrays (heap (addPins this (Some pf) pa model st))
                       (pins_ref (addPins this (Some pf) pa model st))) {} atts))))"
proof -
  obtain pins st0 where p: "(case pa of None \<Rightarrow> new_array st | Some r \<Rightarrow> (r, st)) = (pins, st0)"
    by (cases "case pa of None \<Rightarrow> new_array st | Some r \<Rightarrow> (r, st)") simp
  show ?thesis
  proof (cases "truthy_length model \<and> isl (getPins this (the model))")
    case True
    then obtain e where "getPins this (the model) = Inl e"
      by (auto simp: isl_def)
    with True addPins_fetch_failed [OF p, of model this e "Some pf"] show ?thesis
      by (simp add: call_fails_def is_TagAdd_def tag_adds_simps)
  next
    case False
    then have "\<exists>fetched cs1.
        (if truthy_length model then (getPins this (the model), [GetPins (the model)])
         else (Inr [], [])) = (Inr fetched, cs1)"
      by (cases "getPins this (the model)") simp_all
    then obtain fetched cs1 where
      f: "(if truthy_length model then (getPins this (the model), [GetPins (the model)])
           else (Inr [], [])) = (Inr fetched, cs1)"
      by blast
    then have cs1: "tag_adds cs1 = []"
      by (auto simp: tag_adds_simps split: if_splits)
    from f False have cs1': "\<forall>c\<in>set cs1. \<not> call_fails this pf c"
      by (auto simp: call_fails_def split: if_splits)
    define st1 where "st1 = (if truthy_length model then array_push pins fetched st0 else st0)"
    define W where "W = arrays st1 pins"
    note eq = addPins_after_fetch [OF p f st1_def, of "Some pf", folded W_def]
    have cs2: "tag_adds (snd (attachAll (Some pf) W)) = []"
      by (simp add: attachAll_calls tag_adds_def comp_def)
    show ?thesis
    proof (cases "Promise_all (fst (attachAll (Some pf) W))")
      case (Inl e)
      with eq cs1 cs2 attachAll_failure [OF Inl, of this] show ?thesis
        by (auto simp: tag_adds_simps)
    next
      case (Inr atts)
      have r: "heap (addPins this (Some pf) pa model st) = st1"
           "pins_ref (addPins this (Some pf) pa model st) = pins"
           "calls (addPins this (Some pf) pa model st) =
              cs1 @ snd (attachAll (Some pf) W) @ snd (registerAll (Some pf) W {} atts)"
        using eq Inr by (auto split: sum.splits)
      have "\<forall>c\<in>set (calls (addPins this (Some pf) pa model st)).
              \<not> is_TagAdd c \<longrightarrow> \<not> call_fails this pf c"
        using r(3) cs1' attachAll_no_failure [OF Inr, of _ this] registerAll_calls_TagAdd
        by auto
      with r Inr cs1 cs2 show ?thesis
        by (simp add: W_def tag_adds_simps)
    qed
  qed
qed

subsection \<open>Concrete runs\<close>

lemmas pin_examples = pin1_def pin1'_def pin2_def platform_ok_def platform_no_sandbox_two_def
  platform_refuses_p2_def store1_def ext0_def tag1_def tag2_def

lemmas addPins_eval = addPins_def truthy_array_def truthy_string_def truthy_length_def
  array_push_def new_array_def attachAll_def attachPin_def element0_def tag_descriptor_of_def
  enumerate_eq_zip Let_def setupSdk_addPins_def setupSdk_mapport_def

lemma run_accepted:
  "calls (addPins ext0 (Some platform_ok) (Some 0) None store1) =
     [RegisterSandbox ''<b>one</b>'', RegisterSandbox ''<b>other</b>'', RegisterSandbox ''<i>two</i>'',
      TagAdd tag1, TagAdd tag2]"
  "outcome (addPins ext0 (Some platform_ok) (Some 0) None store1) = Fulfilled ()"
  "arrays (heap (addPins ext0 (Some platform_ok) (Some 0) None store1))
     (pins_ref (addPins ext0 (Some platform_ok) (Some 0) None store1)) = [pin1, pin1', pin2]"
  by (simp_all add: addPins_eval pin_examples)

lemma run_sandbox_fails:
  "calls (addPins ext0 (Some platform_no_sandbox_two) (Some 0) None store1) =
     [RegisterSandbox ''<b>one</b>'', RegisterSandbox ''<b>other</b>'', RegisterSandbox ''<i>two</i>'']"
  "outcome (addPins ext0 (Some platform_no_sandbox_two) (Some 0) None store1) = Rejected (Error ''sandbox failed'')"
  by (simp_all add: addPins_eval pin_examples)

lemma run_overlay_refused:
  "calls (addPins ext0 (Some platform_refuses_p2) (Some 0) None store1) =
     [RegisterSandbox ''<b>one</b>'', RegisterSandbox ''<b>other</b>'', RegisterSandbox ''<i>two</i>'',
      TagAdd tag1, TagAdd tag2]"
  "outcome (addPins ext0 (Some platform_refuses_p2) (Some 0) None store1) = Rejected (Error ''refused'')"
  by (simp_all add: addPins_eval pin_examples)

subsection \<open>Deduplication\<close>

text \<open>
  C2, as stated, fails: with the pins \<open>pin1\<close>, \<open>pin1'\<close> (both with id \<open>p1\<close>) and \<open>pin2\<close>,
  on a platform that renders the attachments of the first two and fails for the
  third, no overlay is requested for \<open>p1\<close>; and through \<open>setupSdk\<close>, whose platform
  handle is \<open>null\<close>, none is requested either.
\<close>

theorem addPins_no_add_when_attachment_fails:
  "arrays store1 0 = [pin1, pin1', pin2]
   \<and> pin_id pin1 = ''p1'' \<and> pin_id pin1' = ''p1''
   \<and> Tag_registerSandbox platform_no_sandbox_two (html pin1) = Inr [''sandbox:<b>one</b>'', ''messenger'']
   \<and> Tag_registerSandbox platform_no_sandbox_two (html pin1') = Inr [''sandbox:<b>other</b>'', ''messenger'']
   \<and> filter (\<lambda>d. tag_id d = ''p1'')
        (tag_adds (calls (addPins ext0 (Some platform_no_sandbox_two) (Some 0) None store1))) = []
   \<and> filter (\<lambda>d. tag_id d = ''p1'')
        (tag_adds (calls (setupSdk_addPins ext0 ''m1'' (Some 0) store1))) = []"
  by (simp add: addPins_eval pin_examples tag_adds_def)

text \<open>
  C2, amended. On a platform handle that is not \<open>null\<close>: when the fetch (if a model is
  given) and every attachment-rendering request of the call succeed, then for every id
  in the list bound to \<open>pins\<close> (the caller's pins followed by the fetched ones) exactly
  one overlay-add request carries that id; it is built from the first pin with that id
  in list order and from the attachment rendered for that pin; and the call is
  fulfilled unless one of the overlay-add requests it issued fails, so the dropped
  pins raise no error. When the fetch or an attachment-rendering request fails, no
  overlay-add request is issued and the call is rejected.
\<close>

theorem addPins_registers_first_of_each_id:
  fixes this pf pa model st
  defines "res \<equiv> addPins this (Some pf) pa model st"
  shows "((\<forall>c\<in>set (calls res). \<not> is_TagAdd c \<longrightarrow> \<not> call_fails this pf c)
           \<and> find (\<lambda>p. pin_id p = i) (arrays (heap res) (pins_ref res)) = Some p
          \<longrightarrow> (\<exists>a hs. Tag_registerSandbox pf (html p) = Inr hs \<and> attach a = element0 hs
                 \<and> filter (\<lambda>d. tag_id d = i) (tag_adds (calls res)) = [tag_descriptor_of p a])
              \<and> (outcome res = Fulfilled () \<or> (\<exists>d\<in>set (tag_adds (calls res)). isl (Tag_add pf d))))
       \<and> ((\<exists>c\<in>set (calls res). \<not> is_TagAdd c \<and> call_fails this pf c)
          \<longrightarrow> tag_adds (calls res) = [] \<and> (\<exists>e. outcome res = Rejected e))"
proof (intro conjI impI; (elim conjE)?)
  assume ok: "\<forall>c\<in>set (calls res). \<not> is_TagAdd c \<longrightarrow> \<not> call_fails this pf c"
     and first: "find (\<lambda>p. pin_id p = i) (arrays (heap res) (pins_ref res)) = Some p"
  from addPins_stages [of this pf pa model st] ok obtain atts where
    A: "Promise_all (fst (attachAll (Some pf) (arrays (heap res) (pins_ref res)))) = Inr atts" and
    T: "tag_adds (calls res) =
          tag_adds (snd (registerAll (Some pf) (arrays (heap res) (pins_ref res)) {} atts))"
    unfolding res_def by blast
  from find_attachment [OF A first] obtain a hs where
    a: "find (\<lambda>a. pin_id (arrays (heap res) (pins_ref res) ! index a) = i) atts = Some a"
       "arrays (heap res) (pins_ref res) ! index a = p"
       "Tag_registerSandbox pf (html p) = Inr hs" "attach a = element0 hs"
    by blast
  from registerAll_filter [OF attachAll_indices [OF A], of i pf "{}"] T a
  have "filter (\<lambda>d. tag_id d = i) (tag_adds (calls res)) = [tag_descriptor_of p a]"
    by simp
  with a show "\<exists>a hs. Tag_registerSandbox pf (html p) = Inr hs \<and> attach a = element0 hs
            \<and> filter (\<lambda>d. tag_id d = i) (tag_adds (calls res)) = [tag_descriptor_of p a]"
    by blast
  show "outcome res = Fulfilled () \<or> (\<exists>d\<in>set (tag_adds (calls res)). isl (Tag_add pf d))"
  proof (cases "outcome res = Fulfilled ()")
    case True
    then show ?thesis ..
  next
    case False
    with addPins_outcome [of this pf pa model st] obtain c where
      c: "c \<in> set (calls res)" "call_fails this pf c"
      unfolding res_def by blast
    with ok have "is_TagAdd c" by blast
    then obtain d where "c = TagAdd d"
      by (cases c) (simp_all add: is_TagAdd_def)
    with c have "d \<in> set (tag_adds (calls res))" "isl (Tag_add pf d)"
      by (simp_all add: tag_adds_member call_fails_def)
    then show ?thesis by blast
  qed
next
  assume bad: "\<exists>c\<in>set (calls res). \<not> is_TagAdd c \<and> call_fails this pf c"
  with addPins_stages [of this pf pa model st]
  show "tag_adds (calls res) = []"
    unfolding res_def by blast
  from bad addPins_outcome [of this pf pa model st]
  show "\<exists>e. outcome res = Rejected e"
    unfolding res_def by blast
qed

theorem addPins_registers_first_of_each_id_witness:
  "find (\<lambda>p. pin_id p = ''p1'') [pin1, pin1', pin2] = Some pin1
   \<and> filter (\<lambda>d. tag_id d = ''p1'')
        (tag_adds (calls (addPins ext0 (Some platform_ok) (Some 0) None store1))) = [tag1]
   \<and> outcome (addPins ext0 (Some platform_ok) (Some 0) None store1) = Fulfilled ()
   \<and> call_fails ext0 platform_no_sandbox_two (RegisterSandbox ''<i>two</i>'')
   \<and> tag_adds (calls (addPins ext0 (Some platform_no_sandbox_two) (Some 0) None store1)) = []
   \<and> outcome (addPins ext0 (Some platform_no_sandbox_two) (Some 0) None store1)
       = Rejected (Error ''sandbox failed'')"
proof -
  have ok: "\<forall>c\<in>set (calls (addPins ext0 (Some platform_ok) (Some 0) None store1)).
              \<not> is_TagAdd c \<longrightarrow> \<not> call_fails ext0 platform_ok c"
    unfolding run_accepted by (simp add: is_TagAdd_def call_fails_def platform_ok_def)
  have first: "find (\<lambda>p. pin_id p = ''p1'')
      (arrays (heap (addPins ext0 (Some platform_ok) (Some 0) None store1))
              (pins_ref (addPins ext0 (Some platform_ok) (Some 0) None store1))) = Some pin1"
    unfolding run_accepted by (simp add: pin1_def)
  from addPins_registers_first_of_each_id
         [where this = ext0 and pf = platform_ok and pa = "Some 0" and model = None
            and st = store1 and i = "''p1''" and p = pin1] ok first
  obtain a hs where
    a: "Tag_registerSandbox platform_ok (html pin1) = Inr hs" "attach a = element0 hs"
       "filter (\<lambda>d. tag_id d = ''p1'')
          (tag_adds (calls (addPins ext0 (Some platform_ok) (Some 0) None store1)))
        = [tag_descriptor_of pin1 a]"
    by blast
  from a(1,2) have "tag_descriptor_of pin1 a = tag1"
    by (auto simp: platform_ok_def pin1_def tag1_def element0_def tag_descriptor_of_def
          truthy_string_def truthy_length_def)
  with a(3) have one: "filter (\<lambda>d. tag_id d = ''p1'')
        (tag_adds (calls (addPins ext0 (Some platform_ok) (Some 0) None store1))) = [tag1]"
    by simp
  have bad: "\<exists>c\<in>set (calls (addPins ext0 (Some platform_no_sandbox_two) (Some 0) None store1)).
               \<not> is_TagAdd c \<and> call_fails ext0 platform_no_sandbox_two c"
    unfolding run_sandbox_fails by (simp add: is_TagAdd_def call_fails_def platform_no_sandbox_two_def)
  from addPins_registers_first_of_each_id
         [where this = ext0 and pf = platform_no_sandbox_two and pa = "Some 0" and model = None
            and st = store1 and i = "''p1''" and p = pin1] bad
  have none: "tag_adds (calls (addPins ext0 (Some platform_no_sandbox_two) (Some 0) None store1)) = []"
    by blast
  have f: "find (\<lambda>p. pin_id p = ''p1'') [pin1, pin1', pin2] = Some pin1"
    by (simp add: pin1_def)
  have cf: "call_fails ext0 platform_no_sandbox_two (RegisterSandbox ''<i>two</i>'')"
    by (simp add: call_fails_def platform_no_sandbox_two_def)
  from one none f cf run_accepted(2) run_sandbox_fails(2) show ?thesis
    by blast
qed

subsection \<open>Failure of the batch\<close>

text \<open>
  C7. On a platform handle that is not \<open>null\<close>, if any request the call issues fails
  (an attachment-rendering request, an overlay-add request, or the fetch), the call
  has one outcome, a rejection carrying one error; nothing in the result says which
  requests succeeded.
\<close>

theorem addPins_fails_as_a_whole:
  assumes "c \<in> set (calls (addPins this (Some pf) pa model st))"
      and "call_fails this pf c"
  shows "\<exists>e. outcome (addPins this (Some pf) pa model st) = Rejected e"
  using addPins_outcome [of this pf pa model st] assms by blast

text \<open>
  The platform refuses the overlay for \<open>p2\<close>: the call is rejected, although the
  overlay for \<open>p1\<close> was requested and accepted.
\<close>

theorem addPins_fails_as_a_whole_witness:
  "TagAdd tag2 \<in> set (calls (addPins ext0 (Some platform_refuses_p2) (Some 0) None store1))
   \<and> call_fails ext0 platform_refuses_p2 (TagAdd tag2)
   \<and> outcome (addPins ext0 (Some platform_refuses_p2) (Some 0) None store1) = Rejected (Error ''refused'')
   \<and> TagAdd tag1 \<in> set (calls (addPins ext0 (Some platform_refuses_p2) (Some 0) None store1))
   \<and> Tag_add platform_refuses_p2 tag1 = Inr ()"
proof -
  have c: "TagAdd tag2 \<in> set (calls (addPins ext0 (Some platform_refuses_p2) (Some 0) None store1))"
    by (simp add: run_overlay_refused)
  have f: "call_fails ext0 platform_refuses_p2 (TagAdd tag2)"
    by (simp add: call_fails_def platform_refuses_p2_def tag2_def)
  have t1: "TagAdd tag1 \<in> set (calls (addPins ext0 (Some platform_refuses_p2) (Some 0) None store1))"
    by (simp add: run_overlay_refused)
  have a1: "Tag_add platform_refuses_p2 tag1 = Inr ()"
    by (simp add: platform_refuses_p2_def tag1_def)
  from addPins_fails_as_a_whole [OF c f] c f t1 a1 run_overlay_refused(2) show ?thesis
    by blast
qed

subsection \<open>The caller's array\<close>

text \<open>
  C10. When the caller supplies a pins array and a non-empty model identifier and the
  fetch for that model returns pins, the call leaves the caller's own array holding
  its former elements followed by the fetched pins, whatever the platform does
  afterwards; that array is the one bound to \<open>pins\<close>, and no other array changes.
\<close>

theorem addPins_pushes_onto_callers_array:
  assumes "m \<noteq> []" and "getPins this m = Inr fetched"
  shows "arrays (heap (addPins this mapport (Some r) (Some m) st)) r = arrays st r @ fetched
       \<and> pins_ref (addPins this mapport (Some r) (Some m) st) = r
       \<and> (\<forall>r'. r' \<noteq> r \<longrightarrow> arrays (heap (addPins this mapport (Some r) (Some m) st)) r' = arrays st r')"
  using assms
  by (auto simp: addPins_def truthy_array_def truthy_length_def array_push_def Let_def
        split: prod.splits sum.splits)

theorem addPins_pushes_onto_callers_array_witness:
  "''m1'' \<noteq> [] \<and> getPins ext0 ''m1'' = Inr [pin2, pin1]
   \<and> arrays store1 0 = [pin1, pin1', pin2]
   \<and> arrays (heap (addPins ext0 (Some platform_ok) (Some 0) (Some ''m1'') store1)) 0
       = [pin1, pin1', pin2, pin2, pin1]
   \<and> arrays (heap (setupSdk_addPins ext0 ''m1'' (Some 0) store1)) 0
       = [pin1, pin1', pin2, pin2, pin1]"
proof -
  have m: "''m1'' \<noteq> []" by simp
  have g: "getPins ext0 ''m1'' = Inr [pin2, pin1]" by (simp add: ext0_def)
  from addPins_pushes_onto_callers_array [OF m g, of "Some platform_ok" 0 store1]
       addPins_pushes_onto_callers_array [OF m g, of None 0 store1] g
  show ?thesis
    by (simp add: store1_def setupSdk_addPins_def setupSdk_mapport_def)
qed

subsection \<open>Validation\<close>




subsection \<open>\<open>getPosition\<close>\<close>

text \<open>
  C8. \<open>getPosition\<close> never throws: it always returns a promise. While either cache is
  empty (no position has been computed) the promise is rejected with the message
  \<open>Can't get current position.\<close>; when both caches are set it is fulfilled with the
  cached intersection, which is the position together with its time stamp.
\<close>

theorem getPosition_outcome:
  "(\<exists>p. getPosition ic pc = Returns p)
   \<and> (ic = None \<or> pc = None \<longrightarrow>
        getPosition ic pc = Returns (Rejected (Error ''Can't get current position.'')))
   \<and> (\<forall>v q. ic = Some v \<and> pc = Some q \<longrightarrow> getPosition ic pc = Returns (Fulfilled (Some v)))"
  by (auto simp: getPosition_def getPosition_executor_def new_Promise_def)

text \<open>
  With the caches of \<open>setupSdk\<close>, which are constant \<open>null\<close>, the promise is rejected;
  with both caches set it is fulfilled with position and time.
\<close>

theorem getPosition_outcome_witness:
  "getPosition (None :: intersection option) (Some ())
     = Returns (Rejected (Error ''Can't get current position.''))
   \<and> setupSdk_getPosition = Returns (Rejected (Error ''Can't get current position.''))
   \<and> getPosition (Some \<lparr>int_position = (1, 2, 3), time = 1700\<rparr>) (Some ())
       = Returns (Fulfilled (Some \<lparr>int_position = (1, 2, 3), time = 1700\<rparr>))"
  using getPosition_outcome [of None "Some ()"]
        getPosition_outcome [of None "None :: unit option"]
        getPosition_outcome [of "Some \<lparr>int_position = (1, 2, 3), time = 1700\<rparr>" "Some ()"]
  by (simp add: setupSdk_getPosition_def)

end
